theory Spec2Isabelle
  imports Complex_Main
begin

section \<open>Handwritten digit recognition notebook: data model\<close>

text \<open>
  The repository is one notebook, \<^verbatim>\<open>CSCA5622_final_HaoYu_v1.ipynb\<close>. Its cells call
  scikit-learn; the calls, their arguments and their order are the program. Library
  routines whose code is not part of the repository appear either as parameters of the
  definitions below or as definitions marked as modelled from the specification.

  Feature values are Python floats; they are modelled as exact rationals, and a missing
  value (pandas null / NaN) as \<open>None\<close>.
\<close>

type_synonym cell = "rat option"
type_synonym row = "cell list"
type_synonym matrix = "row list"
type_synonym label = nat

datatype error = ValueError | FitError | NotFittedError | KeyError

text \<open>A hyperparameter value is a number or a string, as in the notebook's dictionaries.\<close>

datatype pval = Num rat | Str string

type_synonym params = "(string \<times> pval) list"

section \<open>Step 8: the hyperparameter grid\<close>

text \<open>
  \<^verbatim>\<open>
  param_grid = {
      'C': [0.1, 1, 10],
      'gamma': ['scale', 'auto', 0.01, 0.001],
      'kernel': ['rbf', 'poly']
  }
  grid_search = GridSearchCV(SVC(), param_grid, cv=3, scoring='accuracy', verbose=2, n_jobs=-1)
  \<close>
  The dictionary is kept as an association list in its written order, which is also the
  sorted key order the library enumerates in.
\<close>

definition param_grid :: "(string \<times> pval list) list" where
  "param_grid =
     [(''C'', [Num (1 / 10), Num 1, Num 10]),
      (''gamma'', [Str ''scale'', Str ''auto'', Num (1 / 100), Num (1 / 1000)]),
      (''kernel'', [Str ''rbf'', Str ''poly''])]"

definition cv :: nat where
  "cv = 3"

text \<open>
  The grid of a dictionary of value lists is their Cartesian product: one combination per
  choice of a value for every key, the first key varying slowest.
\<close>

fun ParameterGrid :: "(string \<times> pval list) list \<Rightarrow> params list" where
  "ParameterGrid [] = [[]]"
| "ParameterGrid ((k, vs) # rest) =
     concat (map (\<lambda>v. map (\<lambda>p. (k, v) # p) (ParameterGrid rest)) vs)"

text \<open>
  The cross-validated search runs one fit/score operation per pair of a combination and a
  fold index.
\<close>

definition fit_score_tasks :: "params list \<Rightarrow> nat \<Rightarrow> (params \<times> nat) list" where
  "fit_score_tasks candidates n_splits = List.product candidates [0..<n_splits]"

definition candidate_params :: "params list" where
  "candidate_params = ParameterGrid param_grid"

section \<open>Step 3: the missing-value report\<close>

text \<open>
  \<^verbatim>\<open>
  print("Missing values in X:", X.isnull().sum().sum())
  \<close>
  The notebook counts the missing cells and prints the count. Nothing else reads it.
\<close>

definition isnull_sum_sum :: "matrix \<Rightarrow> nat" where
  "isnull_sum_sum X = sum_list (map (\<lambda>r. length (filter (\<lambda>c. c = None) r)) X)"

section \<open>Step 4: scaling and splitting\<close>

text \<open>
  \<^verbatim>\<open>
  scaler = MinMaxScaler()
  X_scaled = scaler.fit_transform(X)
  X_train, X_test, y_train, y_test = train_test_split(X_scaled, y, test_size=0.2,
                                                      random_state=42, stratify=y)
  \<close>
\<close>

definition n_features :: "matrix \<Rightarrow> nat" where
  "n_features X = (case X of [] \<Rightarrow> 0 | r # _ \<Rightarrow> length r)"

text \<open>A data frame is rectangular: every row has the same number of cells.\<close>

definition rectangular :: "matrix \<Rightarrow> bool" where
  "rectangular X = list_all (\<lambda>r. length r = n_features X) X"

definition column :: "matrix \<Rightarrow> nat \<Rightarrow> cell list" where
  "column X c = map (\<lambda>r. r ! c) X"

definition present :: "cell list \<Rightarrow> rat list" where
  "present cs = List.map_filter (\<lambda>c. c) cs"

definition nanmin :: "cell list \<Rightarrow> rat option" where
  "nanmin cs = (case present cs of [] \<Rightarrow> None | v # vs \<Rightarrow> Some (fold min vs v))"

definition nanmax :: "cell list \<Rightarrow> rat option" where
  "nanmax cs = (case present cs of [] \<Rightarrow> None | v # vs \<Rightarrow> Some (fold max vs v))"

text \<open>The Scaling Parameters: one (min, max) pair per feature column.\<close>

type_synonym scaling = "(rat option \<times> rat option) list"

text \<open>
  Modelled from the spec: \<^verbatim>\<open>MinMaxScaler\<close> is scikit-learn's, its code is not in the
  repository. Spec 3 and 4.1: a per-feature-column (min, max) pair is computed from the
  data given to the fit, and a value \<open>v\<close> of column \<open>c\<close> becomes
  \<open>(v - min_c) / (max_c - min_c)\<close>, or 0 where \<open>max_c = min_c\<close>.
  The spec gives no treatment of a missing value; the library documents that missing
  values are disregarded in the fit and kept missing by the transform, which is what
  \<open>nanmin\<close>, \<open>nanmax\<close> and the second equation of \<open>scale_cell\<close> do.
  The library rejects a data set without rows or without feature columns. A feature
  value here is a finite number or missing: an infinite value, which the library also
  rejects, has no representation in \<open>cell\<close>.
\<close>

definition MinMaxScaler_fit :: "matrix \<Rightarrow> scaling" where
  "MinMaxScaler_fit X = map (\<lambda>c. (nanmin (column X c), nanmax (column X c))) [0..<n_features X]"

fun scale_cell :: "rat option \<times> rat option \<Rightarrow> cell \<Rightarrow> cell" where
  "scale_cell (Some mn, Some mx) (Some v) = Some (if mx = mn then 0 else (v - mn) / (mx - mn))"
| "scale_cell _ _ = None"

definition MinMaxScaler_transform :: "scaling \<Rightarrow> matrix \<Rightarrow> matrix" where
  "MinMaxScaler_transform ps X = map (\<lambda>r. map2 scale_cell ps r) X"

definition fit_transform :: "matrix \<Rightarrow> error + (scaling \<times> matrix)" where
  "fit_transform X =
     (if X = [] \<or> n_features X = 0 then Inl ValueError
      else let ps = MinMaxScaler_fit X in Inr (ps, MinMaxScaler_transform ps X))"

text \<open>
  \<^verbatim>\<open>train_test_split\<close> is scikit-learn's as well. Which rows it sends to Train and which
  to Test is decided by its seeded stratified shuffle; that choice is the parameter
  \<open>shuffle_split\<close>, which from the labels returns the Train and the Test row indices
  or raises. The notebook passes the scaled matrix and the labels; the four results are
  the rows and labels at those indices.
\<close>

type_synonym shuffle_split = "label list \<Rightarrow> error + (nat list \<times> nat list)"

definition take_rows :: "'a list \<Rightarrow> nat list \<Rightarrow> 'a list" where
  "take_rows xs idx = map (\<lambda>i. xs ! i) idx"

definition train_test_split ::
  "shuffle_split \<Rightarrow> matrix \<Rightarrow> label list \<Rightarrow> error + (matrix \<times> matrix \<times> label list \<times> label list)" where
  "train_test_split sp Xs y =
     (if length Xs \<noteq> length y then Inl ValueError
      else case sp y of
             Inl e \<Rightarrow> Inl e
           | Inr (train, test) \<Rightarrow>
               Inr (take_rows Xs train, take_rows Xs test, take_rows y train, take_rows y test))"

record preprocessed =
  scaler :: scaling
  X_scaled :: matrix
  X_train :: matrix
  X_test :: matrix
  y_train :: "label list"
  y_test :: "label list"

definition step4 :: "shuffle_split \<Rightarrow> matrix \<Rightarrow> label list \<Rightarrow> error + preprocessed" where
  "step4 sp X y =
     (case fit_transform X of
        Inl e \<Rightarrow> Inl e
      | Inr (ps, Xs) \<Rightarrow>
          (case train_test_split sp Xs y of
             Inl e \<Rightarrow> Inl e
           | Inr (Xtr, Xte, ytr, yte) \<Rightarrow>
               Inr \<lparr>scaler = ps, X_scaled = Xs, X_train = Xtr, X_test = Xte,
                    y_train = ytr, y_test = yte\<rparr>))"

text \<open>Data sets used to evaluate the definitions: five samples of 64 features, one label.\<close>

definition const_row :: "rat \<Rightarrow> row" where
  "const_row v = replicate 64 (Some v)"

definition X_five :: matrix where
  "X_five = [const_row 0, const_row 1, const_row 2, const_row 3, const_row 10]"

definition X_five' :: matrix where
  "X_five' = [const_row 0, const_row 1, const_row 2, const_row 3, const_row 4]"

definition X_missing :: matrix where
  "X_missing = [const_row 0, const_row 1, None # replicate 63 (Some 2), const_row 3, const_row 10]"

definition y_five :: "label list" where
  "y_five = [7, 7, 7, 7, 7]"

definition split_last :: shuffle_split where
  "split_last y = Inr ([0, 1, 2, 3], [4])"

section \<open>Steps 5 and 6: training and evaluating the three models\<close>

text \<open>
  \<^verbatim>\<open>
  models = {
      "SVM": SVC(kernel='rbf', C=10, gamma='scale', random_state=42),
      "KNN": KNeighborsClassifier(n_neighbors=5),
      "Random Forest": RandomForestClassifier(n_estimators=100, random_state=42)
  }
  results = {}
  for name, model in models.items():
      model.fit(X_train, y_train)
      y_pred = model.predict(X_test)
      accuracy = accuracy_score(y_test, y_pred)
      results[name] = accuracy
      print(f"{name} Accuracy: {accuracy:.4f}")
  \<close>
  A classifier is an object: the dictionary \<open>models\<close> holds references into a store of
  estimator objects, and fitting writes the fitted state into the object. What a fit
  learns and what a fitted model predicts is the library's and is a parameter, with
  \<open>'f\<close> the type of fitted states; a fit may raise.
\<close>

datatype algo = SVC | KNeighborsClassifier | RandomForestClassifier

record 'f estimator =
  algo :: algo
  hyper :: params
  fitted :: "'f option"

record 'f library =
  learn :: "algo \<Rightarrow> params \<Rightarrow> matrix \<Rightarrow> label list \<Rightarrow> error + 'f"
  predict :: "'f \<Rightarrow> matrix \<Rightarrow> label list"

record grid_search_cv =
  estimator_ref :: nat
  gs_best_index :: "nat option"
  gs_best_params :: "params option"
  gs_best_estimator :: "nat option"

record 'f notebook =
  heap :: "'f estimator list"
  models :: "(string \<times> nat) list"
  results :: "(string \<times> rat) list"
  grid_search :: "grid_search_cv option"

definition notebook_init :: "'f notebook" where
  "notebook_init = \<lparr>heap = [], models = [], results = [], grid_search = None\<rparr>"

text \<open>Constructing an object appends it to the store; its reference is its position.\<close>

definition alloc :: "'f estimator \<Rightarrow> 'f notebook \<Rightarrow> nat \<times> 'f notebook" where
  "alloc e s = (length (heap s), s\<lparr>heap := heap s @ [e]\<rparr>)"

text \<open>Assignment to a dictionary key: an existing key keeps its place, a new one goes last.\<close>

fun dict_set :: "'k \<Rightarrow> 'v \<Rightarrow> ('k \<times> 'v) list \<Rightarrow> ('k \<times> 'v) list" where
  "dict_set k v [] = [(k, v)]"
| "dict_set k v ((k', v') # kvs) = (if k' = k then (k, v) # kvs else (k', v') # dict_set k v kvs)"

definition model_fit ::
  "'f library \<Rightarrow> nat \<Rightarrow> matrix \<Rightarrow> label list \<Rightarrow> 'f notebook \<Rightarrow> error + 'f notebook" where
  "model_fit L r X y s =
     (let m = heap s ! r in
      case learn L (algo m) (hyper m) X y of
        Inl e \<Rightarrow> Inl e
      | Inr f \<Rightarrow> Inr (s\<lparr>heap := (heap s)[r := m\<lparr>fitted := Some f\<rparr>]\<rparr>))"

definition model_predict :: "'f library \<Rightarrow> nat \<Rightarrow> matrix \<Rightarrow> 'f notebook \<Rightarrow> error + label list" where
  "model_predict L r X s =
     (case fitted (heap s ! r) of
        None \<Rightarrow> Inl NotFittedError
      | Some f \<Rightarrow> Inr (predict L f X))"

text \<open>
  Modelled from the spec: \<^verbatim>\<open>accuracy_score\<close> and \<^verbatim>\<open>confusion_matrix\<close> are scikit-learn's.
  Spec 4.2: accuracy is (correct predictions) / (total test samples); the confusion
  matrix is the 10x10 grid whose entry (i, j) counts the test samples with true label i
  predicted as label j. The library rejects label lists of different lengths. With no
  test sample the quotient below is 0; nothing proved here depends on that case.
\<close>

definition accuracy_score :: "label list \<Rightarrow> label list \<Rightarrow> rat" where
  "accuracy_score y_true y_pred =
     of_nat (length (filter (\<lambda>tp. fst tp = snd tp) (zip y_true y_pred))) / of_nat (length y_true)"

definition n_classes :: nat where
  "n_classes = 10"

definition confusion_matrix :: "label list \<Rightarrow> label list \<Rightarrow> error + nat list list" where
  "confusion_matrix y_true y_pred =
     (if length y_true \<noteq> length y_pred then Inl ValueError
      else Inr (map (\<lambda>i. map (\<lambda>j. length (filter (\<lambda>tp. tp = (i, j)) (zip y_true y_pred)))
                            [0..<n_classes])
                    [0..<n_classes]))"

definition step5_models :: "'f notebook \<Rightarrow> 'f notebook" where
  "step5_models s =
     (let (r0, s0) = alloc \<lparr>algo = SVC,
                            hyper = [(''kernel'', Str ''rbf''), (''C'', Num 10),
                                     (''gamma'', Str ''scale''), (''random_state'', Num 42)],
                            fitted = None\<rparr> s;
          (r1, s1) = alloc \<lparr>algo = KNeighborsClassifier,
                            hyper = [(''n_neighbors'', Num 5)], fitted = None\<rparr> s0;
          (r2, s2) = alloc \<lparr>algo = RandomForestClassifier,
                            hyper = [(''n_estimators'', Num 100), (''random_state'', Num 42)],
                            fitted = None\<rparr> s1
      in s2\<lparr>models := [(''SVM'', r0), (''KNN'', r1), (''Random Forest'', r2)], results := []\<rparr>)"

text \<open>
  The loop body has no exception handler: an exception raised by \<open>fit\<close> or \<open>predict\<close>
  leaves the loop, with the notebook's variables as they are at that moment.
\<close>

fun train_loop ::
  "'f library \<Rightarrow> preprocessed \<Rightarrow> (string \<times> nat) list \<Rightarrow> 'f notebook \<Rightarrow> error option \<times> 'f notebook" where
  "train_loop L P [] s = (None, s)"
| "train_loop L P ((name, r) # rest) s =
     (case model_fit L r (X_train P) (y_train P) s of
        Inl e \<Rightarrow> (Some e, s)
      | Inr s1 \<Rightarrow>
          (case model_predict L r (X_test P) s1 of
             Inl e \<Rightarrow> (Some e, s1)
           | Inr y_pred \<Rightarrow>
               train_loop L P rest
                 (s1\<lparr>results := dict_set name (accuracy_score (y_test P) y_pred) (results s1)\<rparr>)))"

definition step5 :: "'f library \<Rightarrow> preprocessed \<Rightarrow> 'f notebook \<Rightarrow> error option \<times> 'f notebook" where
  "step5 L P s = (let s1 = step5_models s in train_loop L P (models s1) s1)"

text \<open>
  \<^verbatim>\<open>
  y_pred_svm = models["SVM"].predict(X_test)
  cm = confusion_matrix(y_test, y_pred_svm)
  \<close>
\<close>

definition step6 :: "'f library \<Rightarrow> preprocessed \<Rightarrow> 'f notebook \<Rightarrow> error + nat list list" where
  "step6 L P s =
     (case map_of (models s) ''SVM'' of
        None \<Rightarrow> Inl KeyError
      | Some r \<Rightarrow>
          (case model_predict L r (X_test P) s of
             Inl e \<Rightarrow> Inl e
           | Inr y_pred_svm \<Rightarrow> confusion_matrix (y_test P) y_pred_svm))"

section \<open>Step 8: the grid search\<close>

text \<open>
  Modelled from the spec: \<^verbatim>\<open>GridSearchCV\<close> is scikit-learn's. Spec 4.3: every combination
  of the grid is scored on each of the 3 folds, the 3 scores are averaged, and the
  combination with the highest mean is selected, the first in the grid's enumeration
  order among equals. The score of a combination on a fold (a fit on the other folds and
  the accuracy on the held-out one) is the parameter \<open>cv_score\<close>.
\<close>

definition mean_test_score :: "(params \<Rightarrow> nat \<Rightarrow> rat) \<Rightarrow> params \<Rightarrow> rat" where
  "mean_test_score cv_score p = sum_list (map (cv_score p) [0..<cv]) / of_nat cv"

fun best_from :: "nat \<Rightarrow> rat \<Rightarrow> nat \<Rightarrow> rat list \<Rightarrow> nat" where
  "best_from bi bv i [] = bi"
| "best_from bi bv i (m # ms) =
     (if bv < m then best_from i m (Suc i) ms else best_from bi bv (Suc i) ms)"

definition best_index :: "rat list \<Rightarrow> nat" where
  "best_index ms = (case ms of [] \<Rightarrow> 0 | m # rest \<Rightarrow> best_from 0 m 1 rest)"

definition search_best_index :: "(params \<Rightarrow> nat \<Rightarrow> rat) \<Rightarrow> nat" where
  "search_best_index cv_score = best_index (map (mean_test_score cv_score) candidate_params)"

definition search_best_params :: "(params \<Rightarrow> nat \<Rightarrow> rat) \<Rightarrow> params" where
  "search_best_params cv_score = candidate_params ! search_best_index cv_score"

text \<open>
  \<^verbatim>\<open>
  grid_search = GridSearchCV(SVC(), param_grid, cv=3, scoring='accuracy', verbose=2, n_jobs=-1)
  grid_search.fit(X_train, y_train)
  \<close>
  \<open>SVC()\<close> constructs a new classifier with no arguments. How the search treats the
  object it is given is the library's, whose code is not in the repository. As the library
  documents it, the search never fits that object: each fit/score operation receives a
  copy of it, and the winner is refitted on all of Train in one more copy, which becomes
  \<^verbatim>\<open>best_estimator_\<close>. A copy is a new unfitted object with the same constructor
  arguments. The fold scores are the parameter \<open>cv_score\<close>, the refit is the parameter
  \<open>learn\<close> and may raise.
\<close>

definition clone :: "nat \<Rightarrow> 'f notebook \<Rightarrow> nat \<times> 'f notebook" where
  "clone r s = alloc ((heap s ! r)\<lparr>fitted := None\<rparr>) s"

fun clone_per_task :: "nat \<Rightarrow> 'a list \<Rightarrow> 'f notebook \<Rightarrow> 'f notebook" where
  "clone_per_task r [] s = s"
| "clone_per_task r (t # ts) s = clone_per_task r ts (snd (clone r s))"

definition set_params :: "nat \<Rightarrow> params \<Rightarrow> 'f notebook \<Rightarrow> 'f notebook" where
  "set_params r p s =
     s\<lparr>heap := (heap s)[r := (heap s ! r)\<lparr>hyper := fold (\<lambda>kv. dict_set (fst kv) (snd kv)) p (hyper (heap s ! r))\<rparr>]\<rparr>"

definition step8 ::
  "'f library \<Rightarrow> (params \<Rightarrow> nat \<Rightarrow> rat) \<Rightarrow> preprocessed \<Rightarrow> 'f notebook \<Rightarrow> error option \<times> 'f notebook" where
  "step8 L cv_score P s =
     (let (r0, s0) = alloc \<lparr>algo = SVC, hyper = [], fitted = None\<rparr> s;
          s1 = s0\<lparr>grid_search := Some \<lparr>estimator_ref = r0, gs_best_index = None,
                                       gs_best_params = None, gs_best_estimator = None\<rparr>\<rparr>;
          s2 = clone_per_task r0 (fit_score_tasks candidate_params cv) s1;
          b = search_best_index cv_score;
          p = search_best_params cv_score;
          (rb, s3) = clone r0 s2;
          s4 = set_params rb p s3
      in case model_fit L rb (X_train P) (y_train P) s4 of
           Inl e \<Rightarrow> (Some e, s4)
         | Inr s5 \<Rightarrow>
             (None, s5\<lparr>grid_search := Some \<lparr>estimator_ref = r0, gs_best_index = Some b,
                                            gs_best_params = Some p, gs_best_estimator = Some rb\<rparr>\<rparr>))"

text \<open>The notebook from Step 4 to the end of Step 5.\<close>

definition run_to_step5 ::
  "shuffle_split \<Rightarrow> 'f library \<Rightarrow> matrix \<Rightarrow> label list \<Rightarrow> error option \<times> 'f notebook" where
  "run_to_step5 sp L X y =
     (case step4 sp X y of
        Inl e \<Rightarrow> (Some e, notebook_init)
      | Inr P \<Rightarrow> step5 L P notebook_init)"

text \<open>
  Libraries used to evaluate the definitions. In the first, fitting the SVM raises when
  the training labels hold fewer than two classes, as the library's SVM does. In the
  second, fitting the KNN raises. In the third, no fit raises.
\<close>

definition lib_one_class :: "unit library" where
  "lib_one_class =
     \<lparr>learn = (\<lambda>a hp X y. if a = SVC \<and> length (remdups y) < 2 then Inl FitError else Inr ()),
      predict = (\<lambda>f X. map (\<lambda>r. 7) X)\<rparr>"

definition lib_knn_fails :: "unit library" where
  "lib_knn_fails =
     \<lparr>learn = (\<lambda>a hp X y. if a = KNeighborsClassifier then Inl FitError else Inr ()),
      predict = (\<lambda>f X. map (\<lambda>r. 7) X)\<rparr>"

definition lib_const :: "unit library" where
  "lib_const = \<lparr>learn = (\<lambda>a hp X y. Inr ()), predict = (\<lambda>f X. map (\<lambda>r. 7) X)\<rparr>"




definition P_five :: preprocessed where
  "P_five =
     \<lparr>scaler = replicate 64 (Some 0, Some 10),
      X_scaled = [const_row 0, const_row (1 / 10), const_row (1 / 5), const_row (3 / 10), const_row 1],
      X_train = [const_row 0, const_row (1 / 10), const_row (1 / 5), const_row (3 / 10)],
      X_test = [const_row 1],
      y_train = [7, 7, 7, 7],
      y_test = [7]\<rparr>"

definition P_missing :: preprocessed where
  "P_missing =
     \<lparr>scaler = replicate 64 (Some 0, Some 10),
      X_scaled = [const_row 0, const_row (1 / 10), None # replicate 63 (Some (1 / 5)),
                  const_row (3 / 10), const_row 1],
      X_train = [const_row 0, const_row (1 / 10), None # replicate 63 (Some (1 / 5)),
                 const_row (3 / 10)],
      X_test = [const_row 1],
      y_train = [7, 7, 7, 7],
      y_test = [7]\<rparr>"

definition s_svm_only :: "unit notebook" where
  "s_svm_only =
     \<lparr>heap = [\<lparr>algo = SVC,
                hyper = [(''kernel'', Str ''rbf''), (''C'', Num 10),
                         (''gamma'', Str ''scale''), (''random_state'', Num 42)],
                fitted = Some ()\<rparr>,
              \<lparr>algo = KNeighborsClassifier, hyper = [(''n_neighbors'', Num 5)], fitted = None\<rparr>,
              \<lparr>algo = RandomForestClassifier,
                hyper = [(''n_estimators'', Num 100), (''random_state'', Num 42)],
                fitted = None\<rparr>],
      models = [(''SVM'', 0), (''KNN'', 1), (''Random Forest'', 2)],
      results = [(''SVM'', 1)],
      grid_search = None\<rparr>"

definition cm_five :: "nat list list" where
  "cm_five = (replicate 10 (replicate 10 0))[7 := (replicate 10 0)[7 := 1]]"

text \<open>Fold scores used to evaluate the search: every combination with C = 10 scores 9/10.\<close>

definition score_tie :: "params \<Rightarrow> nat \<Rightarrow> rat" where
  "score_tie p k = (if map_of p ''C'' = Some (Num 10) then 9 / 10 else 1 / 2)"

definition s_trained :: "unit notebook" where
  "s_trained =
     \<lparr>heap = [\<lparr>algo = SVC,
                hyper = [(''kernel'', Str ''rbf''), (''C'', Num 10),
                         (''gamma'', Str ''scale''), (''random_state'', Num 42)],
                fitted = Some ()\<rparr>,
              \<lparr>algo = KNeighborsClassifier, hyper = [(''n_neighbors'', Num 5)],
                fitted = Some ()\<rparr>,
              \<lparr>algo = RandomForestClassifier,
                hyper = [(''n_estimators'', Num 100), (''random_state'', Num 42)],
                fitted = Some ()\<rparr>],
      models = [(''SVM'', 0), (''KNN'', 1), (''Random Forest'', 2)],
      results = [(''SVM'', 1), (''KNN'', 1), (''Random Forest'', 1)],
      grid_search = None\<rparr>"

section \<open>Randomness: the seed and the ambient generator\<close>

text \<open>
  The notebook gives \<^verbatim>\<open>random_state=42\<close> to the SVC and to the random forest; the KNN
  takes no such argument. Where a fit draws its random numbers from is the library's:
  the session has one ambient generator, whose state differs from run to run, and the
  library is given that state explicitly here. One run of the notebook uses the library
  at one state \<open>g\<close> of the ambient generator. A library honours the seed when a fit of
  an estimator that is constructed with \<^verbatim>\<open>random_state\<close>, or of a KNN, which has no
  stochastic component, does not depend on the ambient generator, and no prediction does.
\<close>

record ('g, 'f) seeded_library =
  fit_with :: "'g \<Rightarrow> algo \<Rightarrow> params \<Rightarrow> matrix \<Rightarrow> label list \<Rightarrow> error + 'f"
  predict_with :: "'g \<Rightarrow> 'f \<Rightarrow> matrix \<Rightarrow> label list"

definition run_of :: "('g, 'f) seeded_library \<Rightarrow> 'g \<Rightarrow> 'f library" where
  "run_of R g = \<lparr>learn = fit_with R g, predict = predict_with R g\<rparr>"

definition seeded :: "algo \<Rightarrow> params \<Rightarrow> bool" where
  "seeded a hp = (a = KNeighborsClassifier \<or> map_of hp ''random_state'' \<noteq> None)"

definition honours_seed :: "('g, 'f) seeded_library \<Rightarrow> bool" where
  "honours_seed R =
     ((\<forall>g g' a hp X y. seeded a hp \<longrightarrow> fit_with R g a hp X y = fit_with R g' a hp X y)
      \<and> (\<forall>g g' f X. predict_with R g f X = predict_with R g' f X))"

text \<open>
  A library used to evaluate the definitions: a fit returns its seed, or the state of the
  ambient generator when it has none; a model fitted with seed 42 predicts 7.
\<close>

definition lib_seeded :: "(nat, rat) seeded_library" where
  "lib_seeded =
     \<lparr>fit_with = (\<lambda>g a hp X y.
          Inr (case map_of hp ''random_state'' of
                 Some (Num k) \<Rightarrow> k
               | Some (Str w) \<Rightarrow> 0
               | None \<Rightarrow> if a = KNeighborsClassifier then 0 else of_nat g)),
      predict_with = (\<lambda>g f X. map (\<lambda>r. if f = 42 then 7 else 3) X)\<rparr>"

text \<open>For contrast, a notebook state whose forest is constructed without a seed.\<close>

definition s_unseeded :: "rat notebook" where
  "s_unseeded =
     \<lparr>heap = [\<lparr>algo = RandomForestClassifier, hyper = [(''n_estimators'', Num 100)],
                fitted = None\<rparr>],
      models = [(''Random Forest'', 0)],
      results = [],
      grid_search = None\<rparr>"

section \<open>The grid: size and enumeration\<close>

lemma length_concat_const:
  "(\<And>x. x \<in> set xs \<Longrightarrow> length (f x) = n) \<Longrightarrow> length (concat (map f xs)) = length xs * n"
  by (induction xs) auto

lemma length_ParameterGrid:
  "length (ParameterGrid g) = prod_list (map (\<lambda>kv. length (snd kv)) g)"
proof (induction g)
  case Nil
  show ?case by simp
next
  case (Cons kv g)
  obtain k vs where kv: "kv = (k, vs)" by (cases kv)
  have "length (ParameterGrid ((k, vs) # g)) = length vs * length (ParameterGrid g)"
    by (simp add: length_concat_const)
  with Cons kv show ?case by simp
qed

lemma candidate_params_unfold:
  "candidate_params =
    [[(''C'', Num (1 / 10)), (''gamma'', Str ''scale''), (''kernel'', Str ''rbf'')],
     [(''C'', Num (1 / 10)), (''gamma'', Str ''scale''), (''kernel'', Str ''poly'')],
     [(''C'', Num (1 / 10)), (''gamma'', Str ''auto''), (''kernel'', Str ''rbf'')],
     [(''C'', Num (1 / 10)), (''gamma'', Str ''auto''), (''kernel'', Str ''poly'')],
     [(''C'', Num (1 / 10)), (''gamma'', Num (1 / 100)), (''kernel'', Str ''rbf'')],
     [(''C'', Num (1 / 10)), (''gamma'', Num (1 / 100)), (''kernel'', Str ''poly'')],
     [(''C'', Num (1 / 10)), (''gamma'', Num (1 / 1000)), (''kernel'', Str ''rbf'')],
     [(''C'', Num (1 / 10)), (''gamma'', Num (1 / 1000)), (''kernel'', Str ''poly'')],
     [(''C'', Num 1), (''gamma'', Str ''scale''), (''kernel'', Str ''rbf'')],
     [(''C'', Num 1), (''gamma'', Str ''scale''), (''kernel'', Str ''poly'')],
     [(''C'', Num 1), (''gamma'', Str ''auto''), (''kernel'', Str ''rbf'')],
     [(''C'', Num 1), (''gamma'', Str ''auto''), (''kernel'', Str ''poly'')],
     [(''C'', Num 1), (''gamma'', Num (1 / 100)), (''kernel'', Str ''rbf'')],
     [(''C'', Num 1), (''gamma'', Num (1 / 100)), (''kernel'', Str ''poly'')],
     [(''C'', Num 1), (''gamma'', Num (1 / 1000)), (''kernel'', Str ''rbf'')],
     [(''C'', Num 1), (''gamma'', Num (1 / 1000)), (''kernel'', Str ''poly'')],
     [(''C'', Num 10), (''gamma'', Str ''scale''), (''kernel'', Str ''rbf'')],
     [(''C'', Num 10), (''gamma'', Str ''scale''), (''kernel'', Str ''poly'')],
     [(''C'', Num 10), (''gamma'', Str ''auto''), (''kernel'', Str ''rbf'')],
     [(''C'', Num 10), (''gamma'', Str ''auto''), (''kernel'', Str ''poly'')],
     [(''C'', Num 10), (''gamma'', Num (1 / 100)), (''kernel'', Str ''rbf'')],
     [(''C'', Num 10), (''gamma'', Num (1 / 100)), (''kernel'', Str ''poly'')],
     [(''C'', Num 10), (''gamma'', Num (1 / 1000)), (''kernel'', Str ''rbf'')],
     [(''C'', Num 10), (''gamma'', Num (1 / 1000)), (''kernel'', Str ''poly'')]]"
  by (simp add: candidate_params_def param_grid_def)

lemma length_candidate_params: "length candidate_params = 24"
  by (simp add: candidate_params_def length_ParameterGrid param_grid_def)

text \<open>
  Claim C1, as stated: the grid holds exactly 12 combinations and the 3-fold search runs
  exactly 36 fit/score operations. The notebook's grid has 3 * 4 * 2 = 24 combinations,
  so neither number is right.
\<close>

theorem C1_grid_not_12_counterexample:
  "\<not> (length (ParameterGrid param_grid) = 12
      \<and> length (fit_score_tasks (ParameterGrid param_grid) cv) = 36)"
  by (simp add: length_ParameterGrid param_grid_def)

text \<open>
  Claim C1, amended: the grid of the notebook (regularization strength over 0.1, 1, 10;
  kernel width over scale, auto, 0.01, 0.001; kernel over rbf, poly) holds exactly 24
  pairwise different combinations, and the 3-fold search runs exactly 24 * 3 = 72
  fit/score operations.
\<close>

theorem C1_grid_24_combinations_72_tasks:
  "length (ParameterGrid param_grid) = 24
   \<and> distinct (ParameterGrid param_grid)
   \<and> length (fit_score_tasks (ParameterGrid param_grid) cv) = 24 * 3"
proof -
  have d: "distinct candidate_params"
    unfolding candidate_params_unfold by simp
  show ?thesis
    using d length_candidate_params
    by (simp add: candidate_params_def fit_score_tasks_def cv_def)
qed

section \<open>The scaler: parameters and scaled values\<close>

lemma set_present: "set (present cs) = {v. Some v \<in> set cs}"
  by (induction cs) (auto simp: present_def List.map_filter_simps split: option.splits)

lemma nanmin_None: "(nanmin cs = None) = (\<forall>v. Some v \<notin> set cs)"
  using set_present [of cs] by (auto simp: nanmin_def split: list.splits)

lemma nanmax_None: "(nanmax cs = None) = (\<forall>v. Some v \<notin> set cs)"
  using set_present [of cs] by (auto simp: nanmax_def split: list.splits)

lemma nanmin_Some:
  assumes "nanmin cs = Some mn"
  shows "Some mn \<in> set cs \<and> (\<forall>v. Some v \<in> set cs \<longrightarrow> mn \<le> v)"
proof -
  from assms obtain v vs where p: "present cs = v # vs" and mn: "mn = fold min vs v"
    by (auto simp: nanmin_def split: list.splits)
  have eq: "mn = Min (set (present cs))"
    using Min.set_eq_fold [of v vs] by (simp add: p mn)
  have ne: "set (present cs) \<noteq> {}" by (simp add: p)
  have "mn \<in> set (present cs)"
    unfolding eq using ne by (intro Min_in) simp_all
  moreover have "\<And>w. w \<in> set (present cs) \<Longrightarrow> mn \<le> w"
    unfolding eq by (intro Min_le) simp_all
  ultimately show ?thesis by (simp add: set_present)
qed

lemma nanmax_Some:
  assumes "nanmax cs = Some mx"
  shows "Some mx \<in> set cs \<and> (\<forall>v. Some v \<in> set cs \<longrightarrow> v \<le> mx)"
proof -
  from assms obtain v vs where p: "present cs = v # vs" and mx: "mx = fold max vs v"
    by (auto simp: nanmax_def split: list.splits)
  have eq: "mx = Max (set (present cs))"
    using Max.set_eq_fold [of v vs] by (simp add: p mx)
  have ne: "set (present cs) \<noteq> {}" by (simp add: p)
  have "mx \<in> set (present cs)"
    unfolding eq using ne by (intro Max_in) simp_all
  moreover have "\<And>w. w \<in> set (present cs) \<Longrightarrow> w \<le> mx"
    unfolding eq by (intro Max_ge) simp_all
  ultimately show ?thesis by (simp add: set_present)
qed

lemma length_MinMaxScaler_fit: "length (MinMaxScaler_fit X) = n_features X"
  by (simp add: MinMaxScaler_fit_def)

lemma nth_MinMaxScaler_fit:
  "c < n_features X \<Longrightarrow> MinMaxScaler_fit X ! c = (nanmin (column X c), nanmax (column X c))"
  by (simp add: MinMaxScaler_fit_def)

lemma rectangular_length: "rectangular X \<Longrightarrow> i < length X \<Longrightarrow> length (X ! i) = n_features X"
  by (simp add: rectangular_def list_all_length)

lemma cell_in_column: "i < length X \<Longrightarrow> X ! i ! c \<in> set (column X c)"
  by (auto simp: column_def)

lemma fit_brackets:
  assumes "i < length X" "c < n_features X" "X ! i ! c = Some v"
  shows "\<exists>mn mx. MinMaxScaler_fit X ! c = (Some mn, Some mx) \<and> mn \<le> v \<and> v \<le> mx"
proof -
  have m: "Some v \<in> set (column X c)"
    using cell_in_column [OF assms(1), of c] assms(3) by simp
  obtain mn where mn: "nanmin (column X c) = Some mn"
    using m nanmin_None [of "column X c"] by (cases "nanmin (column X c)") auto
  obtain mx where mx: "nanmax (column X c) = Some mx"
    using m nanmax_None [of "column X c"] by (cases "nanmax (column X c)") auto
  have "mn \<le> v" using nanmin_Some [OF mn] m by blast
  moreover have "v \<le> mx" using nanmax_Some [OF mx] m by blast
  ultimately show ?thesis
    using mn mx nth_MinMaxScaler_fit [OF assms(2)] by simp
qed

lemma fit_attained:
  assumes "c < n_features X" "MinMaxScaler_fit X ! c = (Some mn, Some mx)"
  shows "Some mn \<in> set (column X c) \<and> Some mx \<in> set (column X c)"
  using assms nanmin_Some [of "column X c" mn] nanmax_Some [of "column X c" mx]
  by (simp add: nth_MinMaxScaler_fit)

lemma nth_transform:
  assumes "i < length X" "c < length ps" "c < length (X ! i)"
  shows "MinMaxScaler_transform ps X ! i ! c = scale_cell (ps ! c) (X ! i ! c)"
  using assms by (simp add: MinMaxScaler_transform_def)

lemma length_transform: "length (MinMaxScaler_transform ps X) = length X"
  by (simp add: MinMaxScaler_transform_def)




lemma fit_transform_Inr:
  "fit_transform X = Inr (ps, Xs) \<Longrightarrow>
     X \<noteq> [] \<and> 0 < n_features X
     \<and> ps = MinMaxScaler_fit X \<and> Xs = MinMaxScaler_transform (MinMaxScaler_fit X) X"
  by (auto simp: fit_transform_def Let_def split: if_splits)



section \<open>Step 4: what the scaler is fitted on, and missing values\<close>

lemma isl_step4:
  "isl (step4 sp X y) = (X = [] \<or> n_features X = 0 \<or> length y \<noteq> length X \<or> isl (sp y))"
  by (auto simp: step4_def fit_transform_def train_test_split_def Let_def length_transform
           split: sum.splits prod.splits if_splits)

lemma scale_cell_None_iff:
  assumes "i < length X" "c < n_features X"
  shows "(scale_cell (MinMaxScaler_fit X ! c) (X ! i ! c) = None) = (X ! i ! c = None)"
proof (cases "X ! i ! c")
  case None
  then show ?thesis by simp
next
  case (Some v)
  from fit_brackets [OF assms Some] obtain mn mx where
    "MinMaxScaler_fit X ! c = (Some mn, Some mx)" by blast
  with Some show ?thesis by simp
qed

lemma step4_Inr:
  assumes "step4 sp X y = Inr P"
  shows "X \<noteq> [] \<and> length y = length X
       \<and> scaler P = MinMaxScaler_fit X
       \<and> X_scaled P = MinMaxScaler_transform (MinMaxScaler_fit X) X
       \<and> (\<exists>train test. sp y = Inr (train, test)
            \<and> X_train P = take_rows (X_scaled P) train \<and> X_test P = take_rows (X_scaled P) test
            \<and> y_train P = take_rows y train \<and> y_test P = take_rows y test)"
proof -
  from assms obtain ps Xs where ft: "fit_transform X = Inr (ps, Xs)"
    by (auto simp: step4_def split: sum.splits)
  from assms ft obtain Xtr Xte ytr yte where
    tts: "train_test_split sp Xs y = Inr (Xtr, Xte, ytr, yte)"
    and P: "P = \<lparr>scaler = ps, X_scaled = Xs, X_train = Xtr, X_test = Xte, y_train = ytr, y_test = yte\<rparr>"
    by (auto simp: step4_def split: sum.splits)
  from fit_transform_Inr [OF ft]
  have X: "X \<noteq> []" and ps: "ps = MinMaxScaler_fit X"
    and Xs: "Xs = MinMaxScaler_transform (MinMaxScaler_fit X) X" by simp_all
  from tts have len: "length Xs = length y"
    by (auto simp: train_test_split_def split: if_splits)
  from tts len obtain train test where sp: "sp y = Inr (train, test)"
    and parts: "Xtr = take_rows Xs train" "Xte = take_rows Xs test"
               "ytr = take_rows y train" "yte = take_rows y test"
    by (auto simp: train_test_split_def split: if_splits sum.splits)
  show ?thesis
    using X ps Xs len sp parts by (simp add: P length_transform)
qed

lemma step4_five: "step4 split_last X_five y_five = Inr P_five"
  by code_simp

lemma step4_missing: "step4 split_last X_missing y_five = Inr P_missing"
  by code_simp

lemma step4_returns:
  assumes "X \<noteq> []" "0 < n_features X" "length y = length X" "sp y = Inr (train, test)"
  shows "\<exists>P. step4 sp X y = Inr P"
proof -
  have "\<not> isl (step4 sp X y)"
    using assms by (simp add: isl_step4)
  then show ?thesis by (cases "step4 sp X y") auto
qed

text \<open>
  Whatever rows the split sends to Train: a row that is not among them still decides the
  parameters. Two one-feature data sets that agree on every Train row and differ in such
  a row get different parameters.
\<close>

lemma test_row_changes_scaler:
  assumes sp: "sp y = Inr (train, test)" and t: "t \<notin> set train" "t < length y"
  shows "\<exists>P P'. step4 sp (replicate (length y) [Some 0]) y = Inr P
           \<and> step4 sp ((replicate (length y) [Some 0])[t := [Some 1]]) y = Inr P'
           \<and> take_rows (replicate (length y) [Some (0::rat)]) train
               = take_rows ((replicate (length y) [Some (0::rat)])[t := [Some 1]]) train
           \<and> scaler P \<noteq> scaler P'"
proof -
  let ?n = "length y"
  let ?X = "replicate ?n [Some (0::rat)]"
  let ?X' = "?X[t := [Some 1]]"
  have n: "0 < ?n" using t by (cases y) simp_all
  have ne: "y \<noteq> []" using n by simp
  have nf: "n_features ?X = 1"
    using n by (cases ?n) (simp_all add: n_features_def)
  have nf': "n_features ?X' = 1"
    using n by (cases ?n; cases t) (simp_all add: n_features_def)
  obtain P where P: "step4 sp ?X y = Inr P"
    using step4_returns [of ?X y sp train test] ne nf sp by auto
  obtain P' where P': "step4 sp ?X' y = Inr P'"
    using step4_returns [of ?X' y sp train test] ne nf' sp by auto
  have rows: "take_rows ?X train = take_rows ?X' train"
    unfolding take_rows_def using t(1) by (intro map_cong refl) (metis nth_list_update_neq)
  have col: "column ?X 0 = replicate ?n (Some 0)"
    by (simp add: column_def)
  have col': "Some 1 \<in> set (column ?X' 0)"
  proof -
    have "?X' ! t ! 0 = Some 1" using t by simp
    moreover have "t < length ?X'" using t by simp
    ultimately show ?thesis using cell_in_column [of t ?X' 0] by simp
  qed
  have mx: "snd (scaler P ! 0) = Some 0"
  proof -
    have in0: "Some 0 \<in> set (column ?X 0)" using n by (simp add: col)
    then obtain m where m: "nanmax (column ?X 0) = Some m"
      using nanmax_None [of "column ?X 0"] by (cases "nanmax (column ?X 0)") auto
    from nanmax_Some [OF m] have "m = 0" by (simp add: col split: if_splits)
    then show ?thesis
      using step4_Inr [OF P] m nf by (simp add: nth_MinMaxScaler_fit)
  qed
  have mx': "snd (scaler P' ! 0) \<noteq> Some 0"
  proof -
    obtain m where m: "nanmax (column ?X' 0) = Some m"
      using col' nanmax_None [of "column ?X' 0"] by (cases "nanmax (column ?X' 0)") auto
    from nanmax_Some [OF m] col' have "1 \<le> m" by blast
    then show ?thesis
      using step4_Inr [OF P'] m nf' by (simp add: nth_MinMaxScaler_fit)
  qed
  from mx mx' have "scaler P \<noteq> scaler P'" by auto
  then show ?thesis using P P' rows by blast
qed

text \<open>
  Claim C2, as stated: the Scaling Parameters are derived only from the training data, and
  the test data never contributes to them. The notebook fits the scaler on the whole data
  set and splits afterwards. Take five samples of one label and the split that sends rows
  0 to 3 to Train and row 4 to Test: the data sets \<open>X_five\<close> and \<open>X_five'\<close> have the
  same Train rows and differ in the Test row only, yet their parameters differ (maximum 10
  against maximum 4), and the parameters of the Train rows alone are different again
  (maximum 3).
\<close>

theorem C2_test_row_changes_scaler_counterexample:
  "split_last y_five = Inr ([0, 1, 2, 3], [4])
   \<and> take_rows X_five [0, 1, 2, 3] = take_rows X_five' [0, 1, 2, 3]
   \<and> \<not> isl (step4 split_last X_five y_five)
   \<and> \<not> isl (step4 split_last X_five' y_five)
   \<and> scaler (projr (step4 split_last X_five y_five)) = replicate 64 (Some 0, Some 10)
   \<and> scaler (projr (step4 split_last X_five' y_five)) = replicate 64 (Some 0, Some 4)
   \<and> MinMaxScaler_fit (take_rows X_five [0, 1, 2, 3]) = replicate 64 (Some 0, Some 3)
   \<and> scaler (projr (step4 split_last X_five y_five))
       \<noteq> scaler (projr (step4 split_last X_five' y_five))
   \<and> scaler (projr (step4 split_last X_five y_five))
       \<noteq> MinMaxScaler_fit (take_rows X_five [0, 1, 2, 3])"
proof -
  have a: "split_last y_five = Inr ([0, 1, 2, 3], [4])"
    by (simp add: split_last_def)
  have b: "take_rows X_five [0, 1, 2, 3] = take_rows X_five' [0, 1, 2, 3]"
    by (simp add: take_rows_def X_five_def X_five'_def)
  have c: "\<not> isl (step4 split_last X_five y_five)"
    by (simp add: step4_five)
  have d: "\<not> isl (step4 split_last X_five' y_five)"
    by code_simp
  have e: "scaler (projr (step4 split_last X_five y_five)) = replicate 64 (Some 0, Some 10)"
    by code_simp
  have f: "scaler (projr (step4 split_last X_five' y_five)) = replicate 64 (Some 0, Some 4)"
    by code_simp
  have g: "MinMaxScaler_fit (take_rows X_five [0, 1, 2, 3]) = replicate 64 (Some 0, Some 3)"
    by code_simp
  have h: "replicate 64 (Some (0::rat), Some (10::rat)) \<noteq> replicate 64 (Some 0, Some 4)"
    by code_simp
  have i: "replicate 64 (Some (0::rat), Some (10::rat)) \<noteq> replicate 64 (Some 0, Some 3)"
    by code_simp
  have h': "scaler (projr (step4 split_last X_five y_five))
       \<noteq> scaler (projr (step4 split_last X_five' y_five))"
    unfolding e f by (rule h)
  have i': "scaler (projr (step4 split_last X_five y_five))
       \<noteq> MinMaxScaler_fit (take_rows X_five [0, 1, 2, 3])"
    unfolding e g by (rule i)
  show ?thesis
    by (intro conjI a b c d e f g h' i')
qed

text \<open>
  Claim C2, amended: the Scaling Parameters are derived from the whole Dataset, before it
  is split. They are the result of fitting the scaler on all rows; the Train rows and the
  Test rows are both rows of the Dataset scaled with those same parameters; every present
  value of every row, whichever side of the split the row lands on, lies between the
  minimum and the maximum of its column; and both are values that occur in the column.
\<close>

theorem C2_scaler_fitted_on_whole_dataset:
  assumes "step4 sp X y = Inr P"
  shows "scaler P = MinMaxScaler_fit X
       \<and> (\<exists>train test. sp y = Inr (train, test)
            \<and> X_train P = take_rows (MinMaxScaler_transform (scaler P) X) train
            \<and> X_test P = take_rows (MinMaxScaler_transform (scaler P) X) test)
       \<and> (\<forall>i<length X. \<forall>c<n_features X. \<forall>v. X ! i ! c = Some v \<longrightarrow>
            (\<exists>mn mx. scaler P ! c = (Some mn, Some mx) \<and> mn \<le> v \<and> v \<le> mx))
       \<and> (\<forall>c<n_features X. \<forall>mn mx. scaler P ! c = (Some mn, Some mx) \<longrightarrow>
            Some mn \<in> set (column X c) \<and> Some mx \<in> set (column X c))"
proof -
  note d = step4_Inr [OF assms]
  have a: "scaler P = MinMaxScaler_fit X" using d by simp
  have b: "\<exists>train test. sp y = Inr (train, test)
            \<and> X_train P = take_rows (MinMaxScaler_transform (scaler P) X) train
            \<and> X_test P = take_rows (MinMaxScaler_transform (scaler P) X) test"
    using d by auto
  have c: "\<forall>i<length X. \<forall>c<n_features X. \<forall>v. X ! i ! c = Some v \<longrightarrow>
            (\<exists>mn mx. scaler P ! c = (Some mn, Some mx) \<and> mn \<le> v \<and> v \<le> mx)"
    unfolding a using fit_brackets by blast
  have e: "\<forall>c<n_features X. \<forall>mn mx. scaler P ! c = (Some mn, Some mx) \<longrightarrow>
            Some mn \<in> set (column X c) \<and> Some mx \<in> set (column X c)"
    unfolding a using fit_attained by blast
  show ?thesis using a b c e by blast
qed


theorem C2_scaler_fitted_on_whole_dataset_witness:
  "step4 split_last X_five y_five = Inr P_five
   \<and> split_last y_five = Inr ([0, 1, 2, 3], [4])
   \<and> scaler P_five = MinMaxScaler_fit X_five
   \<and> 4 < length X_five
   \<and> 0 < n_features X_five
   \<and> X_five ! 4 ! 0 = Some 10
   \<and> (\<exists>mn mx. scaler P_five ! 0 = (Some mn, Some mx) \<and> mn \<le> 10 \<and> 10 \<le> mx)
   \<and> scaler P_five ! 0 = (Some 0, Some 10)
   \<and> Some 0 \<in> set (column X_five 0)
   \<and> Some 10 \<in> set (column X_five 0)"
proof -
  note t = C2_scaler_fitted_on_whole_dataset [OF step4_five]
  have a: "split_last y_five = Inr ([0, 1, 2, 3], [4])"
    by (simp add: split_last_def)
  have b: "scaler P_five = MinMaxScaler_fit X_five"
    by (rule t [THEN conjunct1])
  have i: "4 < length X_five" by code_simp
  have c: "0 < n_features X_five" by code_simp
  have v: "X_five ! 4 ! 0 = Some 10" by code_simp
  have d: "\<exists>mn mx. scaler P_five ! 0 = (Some mn, Some mx) \<and> mn \<le> 10 \<and> 10 \<le> mx"
    by (rule t [THEN conjunct2, THEN conjunct2, THEN conjunct1, rule_format, OF i c v])
  have p: "scaler P_five ! 0 = (Some 0, Some 10)" by code_simp
  have e: "Some 0 \<in> set (column X_five 0) \<and> Some 10 \<in> set (column X_five 0)"
    by (rule t [THEN conjunct2, THEN conjunct2, THEN conjunct2, rule_format, OF c p])
  show ?thesis
    by (intro conjI step4_five a b i c v d p e [THEN conjunct1] e [THEN conjunct2])
qed

text \<open>
  Claim C9, as stated: when a feature value of the input is missing, the Preprocessor
  raises and produces neither scaled output nor split. In \<open>X_missing\<close> the first feature
  of the third sample is missing; the notebook counts one missing value, and Step 4 still
  returns the scaled matrix and the split, the missing cell still missing.
\<close>

theorem C9_missing_value_no_error_counterexample:
  "X_missing ! 2 ! 0 = None
   \<and> isnull_sum_sum X_missing = 1
   \<and> step4 split_last X_missing y_five = Inr P_missing
   \<and> X_scaled P_missing ! 2 ! 0 = None"
proof -
  have a: "X_missing ! 2 ! 0 = None" by code_simp
  have b: "isnull_sum_sum X_missing = 1" by code_simp
  have c: "X_scaled P_missing ! 2 ! 0 = None" by code_simp
  show ?thesis
    by (intro conjI a b c step4_missing)
qed

lemma step4_missing_pattern:
  assumes P: "step4 sp X y = Inr P" and rect: "rectangular X"
    and i: "i < length X" and c: "c < n_features X"
  shows "(X_scaled P ! i ! c = None) = (X ! i ! c = None)"
proof -
  have "X_scaled P ! i ! c = scale_cell (MinMaxScaler_fit X ! c) (X ! i ! c)"
    using step4_Inr [OF P] i c rectangular_length [OF rect i]
    by (simp add: nth_transform length_MinMaxScaler_fit)
  then show ?thesis using scale_cell_None_iff [OF i c] by simp
qed

lemma n_features_cell_update: "n_features (X[i := (X ! i)[c := v]]) = n_features X"
  by (cases X; cases i) (simp_all add: n_features_def)

lemma rectangular_cell_update:
  assumes "rectangular X" "i < length X"
  shows "rectangular (X[i := (X ! i)[c := v]])"
proof -
  have "length r = n_features X" if "r \<in> set (X[i := (X ! i)[c := v]])" for r
  proof -
    from that have "r = (X ! i)[c := v] \<or> r \<in> set X"
      using set_update_subset_insert [of X i "(X ! i)[c := v]"] by auto
    then show ?thesis
      using assms by (auto simp: rectangular_def list_all_iff)
  qed
  then show ?thesis
    by (simp add: rectangular_def list_all_iff n_features_cell_update)
qed

text \<open>
  Claim C9, amended: a missing feature value does not make the Preprocessor fail, and
  nothing is imputed. Take any data set on which Step 4 returns and make any one of its
  feature values missing: Step 4 still returns the scaled matrix and the split, and a
  cell of the scaled matrix is missing exactly where the cell of the input is missing,
  the changed cell among them.
\<close>

theorem C9_missing_value_passes_through:
  assumes ok: "step4 sp X y = Inr P" and rect: "rectangular X"
    and i: "i < length X" and c: "c < n_features X"
  shows "\<exists>P'. step4 sp (X[i := (X ! i)[c := None]]) y = Inr P'
           \<and> X_scaled P' ! i ! c = None
           \<and> (\<forall>j<length X. \<forall>d<n_features X.
                 (X_scaled P' ! j ! d = None) = (X[i := (X ! i)[c := None]] ! j ! d = None))"
proof -
  let ?X' = "X[i := (X ! i)[c := None]]"
  from step4_Inr [OF ok] obtain train test where
    ne: "X \<noteq> []" and len: "length y = length X" and sp: "sp y = Inr (train, test)"
    by blast
  have ne': "?X' \<noteq> []" using ne by simp
  have nf': "n_features ?X' = n_features X" by (rule n_features_cell_update)
  have pos: "0 < n_features ?X'" using c nf' by simp
  have len': "length y = length ?X'" using len by simp
  from step4_returns [of ?X' y sp train test, OF ne' pos len' sp]
  obtain P' where P': "step4 sp ?X' y = Inr P'" ..
  have rect': "rectangular ?X'" by (rule rectangular_cell_update [OF rect i])
  have pat: "(X_scaled P' ! j ! d = None) = (?X' ! j ! d = None)"
    if "j < length X" "d < n_features X" for j d
    using step4_missing_pattern [OF P' rect', of j d] that nf' by simp
  have cell: "?X' ! i ! c = None"
    using i c rectangular_length [OF rect i] by simp
  have "X_scaled P' ! i ! c = None"
    using pat [OF i c] cell by simp
  then show ?thesis using P' pat by blast
qed


theorem C9_missing_value_passes_through_witness:
  "step4 split_last X_five y_five = Inr P_five
   \<and> rectangular X_five
   \<and> 2 < length X_five
   \<and> 0 < n_features X_five
   \<and> X_five[2 := (X_five ! 2)[0 := None]] = X_missing
   \<and> (\<exists>P'. step4 split_last X_missing y_five = Inr P' \<and> X_scaled P' ! 2 ! 0 = None)"
proof -
  have r: "rectangular X_five" by code_simp
  have i: "2 < length X_five" by code_simp
  have c: "0 < n_features X_five" by code_simp
  have e: "X_five[2 := (X_five ! 2)[0 := None]] = X_missing" by code_simp
  from C9_missing_value_passes_through [OF step4_five r i c]
  have "\<exists>P'. step4 split_last X_missing y_five = Inr P' \<and> X_scaled P' ! 2 ! 0 = None"
    unfolding e by blast
  then show ?thesis
    by (intro conjI step4_five r i c e)
qed

section \<open>Step 6: the confusion matrix\<close>

lemma sum_list_indicator:
  "sum_list (map (\<lambda>j. if b = j then (1::nat) else 0) [0..<n]) = (if b < n then 1 else 0)"
  by (induction n) auto

lemma row_counts:
  "sum_list (map (\<lambda>j. length (filter (\<lambda>tp. tp = (i, j)) zs)) [0..<n])
     = length (filter (\<lambda>tp. fst tp = i \<and> snd tp < n) zs)"
proof (induction zs)
  case Nil
  show ?case by simp
next
  case (Cons z zs)
  obtain a b where z: "z = (a, b)" by (cases z)
  have "sum_list (map (\<lambda>j. length (filter (\<lambda>tp. tp = (i, j)) (z # zs))) [0..<n])
      = sum_list (map (\<lambda>j. (if a = i \<and> b = j then 1 else 0)
                             + length (filter (\<lambda>tp. tp = (i, j)) zs)) [0..<n])"
    by (intro arg_cong [where f = sum_list] map_cong refl) (simp add: z)
  also have "\<dots> = sum_list (map (\<lambda>j. if a = i \<and> b = j then 1 else 0) [0..<n])
                 + sum_list (map (\<lambda>j. length (filter (\<lambda>tp. tp = (i, j)) zs)) [0..<n])"
    by (simp add: sum_list_addf)
  also have "sum_list (map (\<lambda>j. if a = i \<and> b = j then (1::nat) else 0) [0..<n])
      = (if a = i \<and> b < n then 1 else 0)"
    using sum_list_indicator [of b n] by (cases "a = i") simp_all
  finally show ?case using Cons.IH by (simp add: z)
qed

lemma filter_fst_zip:
  "length xs = length ys \<Longrightarrow>
     length (filter (\<lambda>tp. Q (fst tp)) (zip xs ys)) = length (filter Q xs)"
  by (induction xs ys rule: list_induct2) auto

lemma label_counts_total:
  "\<forall>l\<in>set xs. l < n \<Longrightarrow>
     sum_list (map (\<lambda>i. length (filter (\<lambda>t. t = i) xs)) [0..<n]) = length xs"
proof (induction xs)
  case Nil
  show ?case by simp
next
  case (Cons x xs)
  have "sum_list (map (\<lambda>i. length (filter (\<lambda>t. t = i) (x # xs))) [0..<n])
      = sum_list (map (\<lambda>i. (if x = i then 1 else 0) + length (filter (\<lambda>t. t = i) xs)) [0..<n])"
    by (intro arg_cong [where f = sum_list] map_cong refl) simp
  also have "\<dots> = sum_list (map (\<lambda>i. if x = i then 1 else 0) [0..<n])
                 + sum_list (map (\<lambda>i. length (filter (\<lambda>t. t = i) xs)) [0..<n])"
    by (simp add: sum_list_addf)
  finally show ?case using Cons sum_list_indicator [of x n] by simp
qed

lemma confusion_row:
  assumes len: "length y_true = length y_pred" and pred: "\<forall>l\<in>set y_pred. l < n"
  shows "sum_list (map (\<lambda>j. length (filter (\<lambda>tp. tp = (i, j)) (zip y_true y_pred))) [0..<n])
       = length (filter (\<lambda>t. t = i) y_true)"
proof -
  have "filter (\<lambda>tp. fst tp = i \<and> snd tp < n) (zip y_true y_pred)
      = filter (\<lambda>tp. fst tp = i) (zip y_true y_pred)"
    using pred by (intro filter_cong refl) (auto dest: set_zip_rightD)
  then show ?thesis
    using filter_fst_zip [OF len, of "\<lambda>t. t = i"] by (simp add: row_counts)
qed

lemma confusion_matrix_sums:
  assumes cm: "confusion_matrix y_true y_pred = Inr cm"
    and true: "\<forall>l\<in>set y_true. l < n_classes"
    and pred: "\<forall>l\<in>set y_pred. l < n_classes"
  shows "length cm = n_classes
       \<and> (\<forall>i<n_classes. length (cm ! i) = n_classes)
       \<and> sum_list (map sum_list cm) = length y_true
       \<and> (\<forall>i<n_classes. sum_list (cm ! i) = length (filter (\<lambda>t. t = i) y_true))"
proof -
  from cm have len: "length y_true = length y_pred"
    and cmdef: "cm = map (\<lambda>i. map (\<lambda>j. length (filter (\<lambda>tp. tp = (i, j)) (zip y_true y_pred)))
                            [0..<n_classes]) [0..<n_classes]"
    by (auto simp: confusion_matrix_def split: if_splits)
  have row: "sum_list (cm ! i) = length (filter (\<lambda>t. t = i) y_true)" if "i < n_classes" for i
    using that confusion_row [OF len pred] by (simp add: cmdef)
  have "map sum_list cm = map (\<lambda>i. length (filter (\<lambda>t. t = i) y_true)) [0..<n_classes]"
    using confusion_row [OF len pred] by (simp add: cmdef)
  then have total: "sum_list (map sum_list cm) = length y_true"
    using label_counts_total [OF true] by simp
  have shape: "length cm = n_classes" "\<forall>i<n_classes. length (cm ! i) = n_classes"
    by (simp_all add: cmdef)
  show ?thesis using shape total row by blast
qed


text \<open>
  Claim C6: in the 10x10 confusion matrix of Step 6 the sum of all entries is the number
  of Test samples, and the sum of row i is the number of Test samples whose true label is
  i. The labels of Test and the labels a fitted model predicts are digits 0 to 9.
\<close>

theorem C6_confusion_matrix_sums:
  assumes run: "step6 L P s = Inr cm"
    and true: "\<forall>l\<in>set (y_test P). l < n_classes"
    and pred: "\<forall>f X. \<forall>l\<in>set (predict L f X). l < n_classes"
  shows "length cm = n_classes
       \<and> (\<forall>i<n_classes. length (cm ! i) = n_classes)
       \<and> sum_list (map sum_list cm) = length (y_test P)
       \<and> (\<forall>i<n_classes. sum_list (cm ! i) = length (filter (\<lambda>t. t = i) (y_test P)))"
proof -
  from run obtain f where
    h: "confusion_matrix (y_test P) (predict L f (X_test P)) = Inr cm"
    by (auto simp: step6_def model_predict_def split: option.splits sum.splits)
  have p: "\<forall>l\<in>set (predict L f (X_test P)). l < n_classes"
    using pred by blast
  show ?thesis
    by (rule confusion_matrix_sums [OF h true p])
qed

theorem C6_confusion_matrix_sums_witness:
  "step6 lib_const P_five (snd (step5 lib_const P_five notebook_init)) = Inr cm_five
   \<and> y_test P_five = [7]
   \<and> length cm_five = n_classes
   \<and> sum_list (map sum_list cm_five) = length (y_test P_five)
   \<and> 7 < n_classes
   \<and> sum_list (cm_five ! 7) = length (filter (\<lambda>t. t = 7) (y_test P_five))"
proof -
  have a: "step6 lib_const P_five (snd (step5 lib_const P_five notebook_init)) = Inr cm_five"
    by code_simp
  have y: "y_test P_five = [7]"
    by (simp add: P_five_def)
  have b: "\<forall>l\<in>set (y_test P_five). l < n_classes"
    by (simp add: P_five_def n_classes_def)
  have c: "\<forall>f X. \<forall>l\<in>set (predict lib_const f X). l < n_classes"
    by (auto simp: lib_const_def n_classes_def)
  note t = C6_confusion_matrix_sums [OF a b c]
  have d: "length cm_five = n_classes"
    by (rule t [THEN conjunct1])
  have e: "sum_list (map sum_list cm_five) = length (y_test P_five)"
    by (rule t [THEN conjunct2, THEN conjunct2, THEN conjunct1])
  have i: "7 < n_classes"
    by (simp add: n_classes_def)
  have f: "sum_list (cm_five ! 7) = length (filter (\<lambda>t. t = 7) (y_test P_five))"
    by (rule t [THEN conjunct2, THEN conjunct2, THEN conjunct2, rule_format, OF i])
  show ?thesis
    by (intro conjI a y d e i f)
qed

section \<open>Step 8: the winner of the search\<close>






section \<open>Step 5: the training loop\<close>

lemma map_of_dict_set: "map_of (dict_set k v kvs) = (map_of kvs)(k \<mapsto> v)"
  by (induction kvs) (auto simp: fun_eq_iff)

lemma model_fit_frame:
  assumes "model_fit L r X y s = Inr s1"
  shows "models s1 = models s \<and> results s1 = results s \<and> grid_search s1 = grid_search s
       \<and> length (heap s1) = length (heap s)
       \<and> (\<forall>r'. r' \<noteq> r \<longrightarrow> heap s1 ! r' = heap s ! r')"
  using assms by (auto simp: model_fit_def Let_def split: sum.splits)

lemma train_loop_frame:
  "train_loop L P ms s = (err, s') \<Longrightarrow>
     models s' = models s \<and> grid_search s' = grid_search s
     \<and> length (heap s') = length (heap s)
     \<and> (\<forall>r'. r' \<notin> snd ` set ms \<longrightarrow> heap s' ! r' = heap s ! r')
     \<and> (\<forall>n'. n' \<notin> fst ` set ms \<longrightarrow> map_of (results s') n' = map_of (results s) n')"
proof (induction ms arbitrary: s)
  case Nil
  then show ?case by simp
next
  case (Cons m ms)
  obtain name r where m: "m = (name, r)" by (cases m)
  show ?case
  proof (cases "model_fit L r (X_train P) (y_train P) s")
    case (Inl e)
    with Cons.prems m show ?thesis by simp
  next
    case (Inr s1)
    note f = model_fit_frame [OF Inr]
    show ?thesis
    proof (cases "model_predict L r (X_test P) s1")
      case (Inl e)
      with Cons.prems m Inr f show ?thesis by auto
    next
      case pr: (Inr y_pred)
      let ?s2 = "s1\<lparr>results := dict_set name (accuracy_score (y_test P) y_pred) (results s1)\<rparr>"
      from Cons.prems m Inr pr have "train_loop L P ms ?s2 = (err, s')" by simp
      from Cons.IH [OF this] f show ?thesis
        by (auto simp: m map_of_dict_set)
    qed
  qed
qed

lemma train_loop_append:
  "train_loop L P (pre @ post) s =
     (case train_loop L P pre s of
        (None, s1) \<Rightarrow> train_loop L P post s1
      | (Some e, s1) \<Rightarrow> (Some e, s1))"
proof (induction pre arbitrary: s)
  case Nil
  show ?case by simp
next
  case (Cons m pre)
  obtain name r where m: "m = (name, r)" by (cases m)
  show ?case
    by (simp add: m Cons.IH split: sum.splits)
qed

text \<open>
  Claim C8, as stated: when fitting one of the three variants fails, the error is
  reported for that variant only and the remaining variants are still trained and
  evaluated. The five samples of \<open>X_five\<close> carry one label only, on which fitting the
  SVM raises: the notebook run ends in that error, the KNN and the Random Forest are
  never fitted, and \<open>results\<close> stays empty.
\<close>

theorem C8_fit_error_aborts_loop_counterexample:
  "fst (run_to_step5 split_last lib_one_class X_five y_five) = Some FitError
   \<and> models (snd (run_to_step5 split_last lib_one_class X_five y_five))
       = [(''SVM'', 0), (''KNN'', 1), (''Random Forest'', 2)]
   \<and> map fitted (heap (snd (run_to_step5 split_last lib_one_class X_five y_five)))
       = [None, None, None]
   \<and> results (snd (run_to_step5 split_last lib_one_class X_five y_five)) = []"
proof -
  have a: "fst (run_to_step5 split_last lib_one_class X_five y_five) = Some FitError"
    by code_simp
  have b: "models (snd (run_to_step5 split_last lib_one_class X_five y_five))
       = [(''SVM'', 0), (''KNN'', 1), (''Random Forest'', 2)]"
    by code_simp
  have c: "map fitted (heap (snd (run_to_step5 split_last lib_one_class X_five y_five)))
       = [None, None, None]"
    by code_simp
  have d: "results (snd (run_to_step5 split_last lib_one_class X_five y_five)) = []"
    by code_simp
  show ?thesis
    by (intro conjI a b c d)
qed

text \<open>
  Claim C8, amended: when fitting one of the model variants raises, the exception leaves
  the training loop. The loop ends with that error in the state the variants before the
  failing one have left; the variants after it are neither fitted nor scored: their
  objects and their entries in \<open>results\<close> are as they were before the loop (for a
  variant that does not also occur before the failing one).
\<close>

theorem C8_fit_error_leaves_the_loop:
  assumes pre: "train_loop L P pre s = (None, s1)"
    and fail: "model_fit L r (X_train P) (y_train P) s1 = Inl e"
  shows "train_loop L P (pre @ (name, r) # post) s = (Some e, s1)
       \<and> (\<forall>m\<in>set post. snd m \<notin> snd ` set pre \<longrightarrow> heap s1 ! snd m = heap s ! snd m)
       \<and> (\<forall>m\<in>set post. fst m \<notin> fst ` set pre \<longrightarrow>
            map_of (results s1) (fst m) = map_of (results s) (fst m))"
proof -
  have "train_loop L P (pre @ (name, r) # post) s = (Some e, s1)"
    by (simp add: train_loop_append pre fail)
  then show ?thesis using train_loop_frame [OF pre] by blast
qed

theorem C8_fit_error_leaves_the_loop_witness:
  "train_loop lib_knn_fails P_five [(''SVM'', 0)] (step5_models notebook_init) = (None, s_svm_only)
   \<and> model_fit lib_knn_fails 1 (X_train P_five) (y_train P_five) s_svm_only = Inl FitError
   \<and> train_loop lib_knn_fails P_five ([(''SVM'', 0)] @ (''KNN'', 1) # [(''Random Forest'', 2)])
        (step5_models notebook_init) = (Some FitError, s_svm_only)
   \<and> heap s_svm_only ! 2 = heap (step5_models notebook_init) ! 2
   \<and> fitted (heap s_svm_only ! 2) = None
   \<and> map_of (results s_svm_only) ''Random Forest''
       = map_of (results (step5_models (notebook_init :: unit notebook))) ''Random Forest''
   \<and> map_of (results s_svm_only) ''Random Forest'' = None"
proof -
  have a: "train_loop lib_knn_fails P_five [(''SVM'', 0)] (step5_models notebook_init)
             = (None, s_svm_only)"
    by code_simp
  have b: "model_fit lib_knn_fails 1 (X_train P_five) (y_train P_five) s_svm_only = Inl FitError"
    by code_simp
  note t = C8_fit_error_leaves_the_loop [OF a b, where name = "''KNN''"
            and post = "[(''Random Forest'', 2)]"]
  have c: "train_loop lib_knn_fails P_five ([(''SVM'', 0)] @ (''KNN'', 1) # [(''Random Forest'', 2)])
        (step5_models notebook_init) = (Some FitError, s_svm_only)"
    by (rule t [THEN conjunct1])
  have d: "heap s_svm_only ! 2 = heap (step5_models notebook_init) ! 2"
    using t [THEN conjunct2, THEN conjunct1] by simp
  have e: "fitted (heap s_svm_only ! 2) = None"
    by (simp add: s_svm_only_def)
  have f: "map_of (results s_svm_only) ''Random Forest''
       = map_of (results (step5_models (notebook_init :: unit notebook))) ''Random Forest''"
    using t [THEN conjunct2, THEN conjunct2] by simp
  have g: "map_of (results s_svm_only) ''Random Forest'' = None"
    by (simp add: s_svm_only_def)
  show ?thesis
    by (intro conjI a b c d e f g)
qed

section \<open>Step 8: what the grid search leaves untouched\<close>

lemma clone_per_task_frame:
  "models (clone_per_task r ts s) = models s
   \<and> results (clone_per_task r ts s) = results s
   \<and> grid_search (clone_per_task r ts s) = grid_search s
   \<and> length (heap s) \<le> length (heap (clone_per_task r ts s))
   \<and> take (length (heap s)) (heap (clone_per_task r ts s)) = heap s"
proof (induction ts arbitrary: s)
  case Nil
  show ?case by simp
next
  case (Cons t ts)
  let ?s1 = "snd (clone r s)"
  let ?s2 = "clone_per_task r ts ?s1"
  have h1: "heap ?s1 = heap s @ [(heap s ! r)\<lparr>fitted := None\<rparr>]"
    and o1: "models ?s1 = models s" "results ?s1 = results s" "grid_search ?s1 = grid_search s"
    by (simp_all add: clone_def alloc_def)
  note ih = Cons.IH [of ?s1]
  have len: "length (heap s) \<le> length (heap ?s2)"
    using ih h1 by simp
  have "take (length (heap s)) (heap ?s2)
      = take (length (heap s)) (take (length (heap ?s1)) (heap ?s2))"
    by (simp add: h1 min_def)
  also have "\<dots> = take (length (heap s)) (heap ?s1)"
    using ih by simp
  also have "\<dots> = heap s"
    by (simp add: h1)
  finally have "take (length (heap s)) (heap ?s2) = heap s" .
  then show ?case using ih o1 len by simp
qed

text \<open>
  Claim C10: the grid search works on a newly constructed classifier with default
  configuration and on copies of it, not on the fitted models of Step 5. After Step 8,
  whether it ends normally or with an error, \<open>models\<close> and \<open>results\<close> are unchanged and
  every object that existed before is unchanged, in particular the three fitted models;
  the classifier handed to the search is a new object, constructed with no arguments and
  never fitted; and the refitted winner is a further new object.
\<close>

theorem C10_grid_search_frame:
  assumes run: "step8 L cv_score P s = (err, s')"
  shows "models s' = models s
       \<and> results s' = results s
       \<and> take (length (heap s)) (heap s') = heap s
       \<and> (\<forall>m\<in>set (models s). snd m < length (heap s) \<longrightarrow> heap s' ! snd m = heap s ! snd m)
       \<and> (\<exists>g. grid_search s' = Some g
              \<and> estimator_ref g = length (heap s)
              \<and> heap s' ! estimator_ref g = \<lparr>algo = SVC, hyper = [], fitted = None\<rparr>
              \<and> (\<forall>rb. gs_best_estimator g = Some rb \<longrightarrow>
                    length (heap s) < rb \<and> rb < length (heap s') \<and> fitted (heap s' ! rb) \<noteq> None))"
proof -
  define n where "n = length (heap s)"
  define e0 :: "'a estimator" where "e0 = \<lparr>algo = SVC, hyper = [], fitted = None\<rparr>"
  define g0 where "g0 = \<lparr>estimator_ref = n, gs_best_index = None,
                          gs_best_params = None, gs_best_estimator = None\<rparr>"
  define s1 where "s1 = s\<lparr>heap := heap s @ [e0], grid_search := Some g0\<rparr>"
  define s2 where "s2 = clone_per_task n (fit_score_tasks candidate_params cv) s1"
  define rb where "rb = length (heap s2)"
  define s3 where "s3 = s2\<lparr>heap := heap s2 @ [(heap s2 ! n)\<lparr>fitted := None\<rparr>]\<rparr>"
  define s4 where "s4 = set_params rb (search_best_params cv_score) s3"
  define g1 where "g1 = \<lparr>estimator_ref = n, gs_best_index = Some (search_best_index cv_score),
                          gs_best_params = Some (search_best_params cv_score),
                          gs_best_estimator = Some rb\<rparr>"
  have unfold: "step8 L cv_score P s =
      (case model_fit L rb (X_train P) (y_train P) s4 of
         Inl e \<Rightarrow> (Some e, s4)
       | Inr s5 \<Rightarrow> (None, s5\<lparr>grid_search := Some g1\<rparr>))"
    by (simp add: step8_def alloc_def clone_def Let_def n_def e0_def g0_def s1_def s2_def
          rb_def s3_def s4_def g1_def cong: sum.case_cong)
  have f1: "models s1 = models s" "results s1 = results s" "heap s1 = heap s @ [e0]"
    "grid_search s1 = Some g0"
    by (simp_all add: s1_def)
  note c = clone_per_task_frame [of n "fit_score_tasks candidate_params cv" s1]
  have f2: "models s2 = models s" "results s2 = results s" "grid_search s2 = Some g0"
    using c f1 by (simp_all add: s2_def)
  have len2: "Suc n \<le> length (heap s2)"
    using c f1 by (simp add: s2_def n_def)
  have pre2: "take (Suc n) (heap s2) = heap s @ [e0]"
    using c f1 by (simp add: s2_def n_def)
  have nrb: "n < rb" using len2 by (simp add: rb_def)
  have f3: "models s3 = models s" "results s3 = results s" "grid_search s3 = Some g0"
    "length (heap s3) = Suc rb"
    using f2 by (simp_all add: s3_def rb_def)
  have pre3: "take (Suc n) (heap s3) = heap s @ [e0]"
    using pre2 len2 by (simp add: s3_def)
  have f4: "models s4 = models s" "results s4 = results s" "grid_search s4 = Some g0"
    "length (heap s4) = Suc rb"
    using f3 by (simp_all add: s4_def set_params_def)
  have pre4: "take (Suc n) (heap s4) = heap s @ [e0]"
    using pre3 nrb by (simp add: s4_def set_params_def)
  have key: "models t = models s \<and> results t = results s
           \<and> take (length (heap s)) (heap t) = heap s
           \<and> (\<forall>m\<in>set (models s). snd m < length (heap s) \<longrightarrow> heap t ! snd m = heap s ! snd m)
           \<and> heap t ! n = e0"
    if t: "models t = models s" "results t = results s" "take (Suc n) (heap t) = heap s @ [e0]"
    for t :: "'a notebook"
  proof -
    have a: "take n (heap t) = heap s"
    proof -
      have "take n (heap t) = take n (take (Suc n) (heap t))" by (simp add: min_def)
      also have "\<dots> = heap s" using t(3) by (simp add: n_def)
      finally show ?thesis .
    qed
    have b: "heap t ! i = heap s ! i" if "i < n" for i
    proof -
      have "heap t ! i = take n (heap t) ! i" using that by simp
      then show ?thesis using a by simp
    qed
    have "heap t ! n = take (Suc n) (heap t) ! n" by simp
    also have "\<dots> = e0" using t(3) by (simp add: n_def nth_append)
    finally have c: "heap t ! n = e0" .
    show ?thesis using t a b c by (simp add: n_def)
  qed
  show ?thesis
  proof (cases "model_fit L rb (X_train P) (y_train P) s4")
    case (Inl e)
    with run unfold have s': "s' = s4" by simp
    have g: "grid_search s' = Some g0 \<and> estimator_ref g0 = length (heap s)
           \<and> gs_best_estimator g0 = None"
      using f4 by (simp add: s' g0_def n_def)
    from key [OF f4(1,2) pre4] g show ?thesis
      unfolding s' by (auto simp: e0_def g0_def n_def)
  next
    case (Inr s5)
    with run unfold have s': "s' = s5\<lparr>grid_search := Some g1\<rparr>" by simp
    obtain f where s5: "s5 = s4\<lparr>heap := (heap s4)[rb := (heap s4 ! rb)\<lparr>fitted := Some f\<rparr>]\<rparr>"
      using Inr by (auto simp: model_fit_def Let_def split: sum.splits)
    have m5: "models s' = models s" "results s' = results s"
      using f4 by (simp_all add: s' s5)
    have pre5: "take (Suc n) (heap s') = heap s @ [e0]"
      using pre4 nrb by (simp add: s' s5)
    have fit: "rb < length (heap s')" "fitted (heap s' ! rb) \<noteq> None"
      using f4 by (simp_all add: s' s5)
    have g: "grid_search s' = Some g1" by (simp add: s')
    from key [OF m5 pre5] g fit nrb show ?thesis
      by (auto simp: e0_def g1_def n_def)
  qed
qed

theorem C10_grid_search_frame_witness:
  "snd (step5 lib_const P_five notebook_init) = s_trained
   \<and> models (snd (step8 lib_const score_tie P_five s_trained)) = models s_trained
   \<and> results (snd (step8 lib_const score_tie P_five s_trained)) = results s_trained
   \<and> (''SVM'', 0) \<in> set (models s_trained)
   \<and> snd (''SVM'', 0::nat) < length (heap s_trained)
   \<and> heap (snd (step8 lib_const score_tie P_five s_trained)) ! snd (''SVM'', 0::nat)
       = heap s_trained ! snd (''SVM'', 0::nat)"
proof -
  have run: "step8 lib_const score_tie P_five s_trained
      = (fst (step8 lib_const score_tie P_five s_trained),
         snd (step8 lib_const score_tie P_five s_trained))"
    by simp
  note t = C10_grid_search_frame [OF run]
  have a: "snd (step5 lib_const P_five notebook_init) = s_trained"
    by code_simp
  have c: "models (snd (step8 lib_const score_tie P_five s_trained)) = models s_trained"
    by (rule t [THEN conjunct1])
  have d: "results (snd (step8 lib_const score_tie P_five s_trained)) = results s_trained"
    by (rule t [THEN conjunct2, THEN conjunct1])
  have e: "(''SVM'', 0) \<in> set (models s_trained)"
    by (simp add: s_trained_def)
  have f: "snd (''SVM'', 0::nat) < length (heap s_trained)"
    by (simp add: s_trained_def)
  have g: "heap (snd (step8 lib_const score_tie P_five s_trained)) ! snd (''SVM'', 0::nat)
       = heap s_trained ! snd (''SVM'', 0::nat)"
    by (rule t [THEN conjunct2, THEN conjunct2, THEN conjunct2, THEN conjunct1, rule_format, OF e f])
  show ?thesis
    by (intro conjI a c d e f g)
qed

section \<open>Step 8: the winner the search records\<close>








section \<open>Step 5 under a fixed seed\<close>

lemma model_fit_seeded:
  assumes "honours_seed R" "seeded (algo (heap s ! r)) (hyper (heap s ! r))"
  shows "model_fit (run_of R g) r X y s = model_fit (run_of R g') r X y s"
proof -
  have "fit_with R g (algo (heap s ! r)) (hyper (heap s ! r)) X y
      = fit_with R g' (algo (heap s ! r)) (hyper (heap s ! r)) X y"
    using assms unfolding honours_seed_def by blast
  then show ?thesis by (simp add: model_fit_def run_of_def Let_def)
qed

lemma model_predict_seeded:
  assumes "honours_seed R"
  shows "model_predict (run_of R g) r X s = model_predict (run_of R g') r X s"
proof -
  have "predict_with R g f X = predict_with R g' f X" for f
    using assms unfolding honours_seed_def by blast
  then show ?thesis by (simp add: model_predict_def run_of_def split: option.splits)
qed

lemma model_fit_keeps_config:
  assumes "model_fit L r X y s = Inr s1"
  shows "algo (heap s1 ! q) = algo (heap s ! q) \<and> hyper (heap s1 ! q) = hyper (heap s ! q)"
proof -
  from assms obtain f where
    s1: "s1 = s\<lparr>heap := (heap s)[r := (heap s ! r)\<lparr>fitted := Some f\<rparr>]\<rparr>"
    by (auto simp: model_fit_def Let_def split: sum.splits)
  show ?thesis
  proof (cases "r < length (heap s)")
    case True
    then show ?thesis by (simp add: s1 nth_list_update)
  next
    case False
    then have "length (heap s) \<le> r" by simp
    then show ?thesis by (simp add: s1 list_update_beyond)
  qed
qed

lemma train_loop_seeded:
  assumes "honours_seed R"
  shows "\<forall>m\<in>set ms. seeded (algo (heap s ! snd m)) (hyper (heap s ! snd m)) \<Longrightarrow>
         train_loop (run_of R g) P ms s = train_loop (run_of R g') P ms s"
proof (induction ms arbitrary: s)
  case Nil
  show ?case by simp
next
  case (Cons m ms)
  obtain name r where m: "m = (name, r)" by (cases m)
  have sd: "seeded (algo (heap s ! r)) (hyper (heap s ! r))"
    using Cons.prems m by simp
  note fit = model_fit_seeded [OF assms sd, of g "X_train P" "y_train P" g']
  show ?case
  proof (cases "model_fit (run_of R g') r (X_train P) (y_train P) s")
    case (Inl e)
    with fit show ?thesis by (simp add: m)
  next
    case (Inr s1)
    note pr = model_predict_seeded [OF assms, of g r "X_test P" s1 g']
    show ?thesis
    proof (cases "model_predict (run_of R g') r (X_test P) s1")
      case (Inl e)
      with fit Inr pr show ?thesis by (simp add: m)
    next
      case p: (Inr y_pred)
      let ?s2 = "s1\<lparr>results := dict_set name (accuracy_score (y_test P) y_pred) (results s1)\<rparr>"
      have "\<forall>m\<in>set ms. seeded (algo (heap ?s2 ! snd m)) (hyper (heap ?s2 ! snd m))"
        using Cons.prems model_fit_keeps_config [OF Inr] by simp
      from Cons.IH [OF this] fit Inr pr p show ?thesis by (simp add: m)
    qed
  qed
qed

lemma step5_models_seeded:
  "\<forall>m\<in>set (models (step5_models s)).
     seeded (algo (heap (step5_models s) ! snd m)) (hyper (heap (step5_models s) ! snd m))"
  by (simp add: step5_models_def alloc_def seeded_def nth_append)

lemma honours_seed_lib_seeded: "honours_seed lib_seeded"
  by (auto simp: honours_seed_def lib_seeded_def seeded_def split: option.splits pval.splits)

text \<open>
  Without the seed the hypothesis is not idle: the same library gives a forest that is
  constructed without \<^verbatim>\<open>random_state\<close> different results at two states of the ambient
  generator.
\<close>

lemma unseeded_forest_depends_on_generator:
  "train_loop (run_of lib_seeded 42) P_five (models s_unseeded) s_unseeded
     \<noteq> train_loop (run_of lib_seeded 0) P_five (models s_unseeded) s_unseeded"
  by code_simp

text \<open>
  Claim C7: two runs of the Model Trainer/Evaluator on the same Train/Test split give the
  same accuracy values and the same confusion matrix. The two runs differ in the state of
  the ambient random generator only; the library honours the seed. Then Step 5 ends in
  the same outcome and the same notebook state (the three fitted models and \<open>results\<close>),
  Step 6 computes the same confusion matrix, and every model predicts the same labels on
  Test. Accuracies are exact rationals and fitted states are values of the library.
\<close>

theorem C7_same_seed_same_results:
  assumes "honours_seed R"
  shows "step5 (run_of R g) P s = step5 (run_of R g') P s
       \<and> step6 (run_of R g) P (snd (step5 (run_of R g) P s))
           = step6 (run_of R g') P (snd (step5 (run_of R g') P s))
       \<and> (\<forall>r. model_predict (run_of R g) r (X_test P) (snd (step5 (run_of R g) P s))
               = model_predict (run_of R g') r (X_test P) (snd (step5 (run_of R g') P s)))"
proof -
  have a: "step5 (run_of R g) P s = step5 (run_of R g') P s"
    unfolding step5_def Let_def
    by (rule train_loop_seeded [OF assms step5_models_seeded])
  have c: "model_predict (run_of R g) r (X_test P) (snd (step5 (run_of R g) P s))
               = model_predict (run_of R g') r (X_test P) (snd (step5 (run_of R g') P s))" for r
    unfolding a by (rule model_predict_seeded [OF assms])
  have b: "step6 (run_of R g) P (snd (step5 (run_of R g) P s))
           = step6 (run_of R g') P (snd (step5 (run_of R g') P s))"
    unfolding a step6_def using model_predict_seeded [OF assms, of g _ "X_test P" _ g']
    by (simp split: option.splits)
  show ?thesis using a b c by blast
qed


theorem C7_same_seed_same_results_witness:
  "fit_with lib_seeded 0 RandomForestClassifier [] X_five y_five
     \<noteq> fit_with lib_seeded 42 RandomForestClassifier [] X_five y_five
   \<and> step5 (run_of lib_seeded 0) P_five notebook_init
       = step5 (run_of lib_seeded 42) P_five notebook_init
   \<and> results (snd (step5 (run_of lib_seeded 0) P_five notebook_init))
       = [(''SVM'', 1), (''KNN'', 0), (''Random Forest'', 1)]
   \<and> step6 (run_of lib_seeded 0) P_five (snd (step5 (run_of lib_seeded 0) P_five notebook_init))
       = step6 (run_of lib_seeded 42) P_five (snd (step5 (run_of lib_seeded 42) P_five notebook_init))"
proof -
  note t = C7_same_seed_same_results [OF honours_seed_lib_seeded, of 0 P_five notebook_init 42]
  have a: "fit_with lib_seeded 0 RandomForestClassifier [] X_five y_five
     \<noteq> fit_with lib_seeded 42 RandomForestClassifier [] X_five y_five"
    by (simp add: lib_seeded_def)
  have b: "results (snd (step5 (run_of lib_seeded 0) P_five notebook_init))
       = [(''SVM'', 1), (''KNN'', 0), (''Random Forest'', 1)]"
    by code_simp
  show ?thesis
    by (intro conjI a b t [THEN conjunct1] t [THEN conjunct2, THEN conjunct1])
qed

end
